theory Spec2Isabelle
  imports Main "HOL-Library.FSet"
begin

section \<open>Paths: the parts of Node's posix \<open>path\<close> module the code relies on\<close>

text \<open>
  \<open>path.dirname\<close> as Node's posix implementation computes it: the empty string gives
  \<open>"."\<close>; otherwise the characters from the last one down to index 1 are scanned, trailing
  slashes and then the last segment are skipped, and the next slash found is the cut
  position \<open>end\<close>. No cut gives \<open>"/"\<close> for a rooted path and \<open>"."\<close> otherwise; a cut at
  index 1 of a rooted path gives \<open>"//"\<close>; any other cut gives \<open>path.slice(0, end)\<close>.
\<close>

definition dirname :: "string \<Rightarrow> string" where
  "dirname p =
     (case p of
        [] \<Rightarrow> ''.''
      | c # cs \<Rightarrow>
          (case dropWhile (\<lambda>x. x \<noteq> CHR ''/'') (dropWhile (\<lambda>x. x = CHR ''/'') (rev cs)) of
             [] \<Rightarrow> if c = CHR ''/'' then ''/'' else ''.''
           | s # r \<Rightarrow> if c = CHR ''/'' \<and> r = [] then ''//'' else c # rev r))"

text \<open>
  \<open>path.basename\<close> (one argument): trailing slashes are skipped and the last segment
  is returned; a path of slashes only, or the empty path, gives the empty string.
\<close>

definition basename :: "string \<Rightarrow> string" where
  "basename p = rev (takeWhile (\<lambda>x. x \<noteq> CHR ''/'') (dropWhile (\<lambda>x. x = CHR ''/'') (rev p)))"

text \<open>
  \<open>String.prototype.trim\<close> on the byte strings of this model: the white space and line
  terminators of the ASCII range (tab, line feed, vertical tab, form feed, carriage
  return, space) are stripped from both ends.
\<close>

definition isWhiteSpace :: "char \<Rightarrow> bool" where
  "isWhiteSpace c \<longleftrightarrow> c \<in> {CHR 0x09, CHR 0x0A, CHR 0x0B, CHR 0x0C, CHR 0x0D, CHR 0x20}"

definition trim :: "string \<Rightarrow> string" where
  "trim s = rev (dropWhile isWhiteSpace (rev (dropWhile isWhiteSpace s)))"

section \<open>Repository Locator\<close>

text \<open>
  The measure that decreases along \<open>dirname\<close> until one of its fixed points
  \<open>"."\<close> and \<open>"/"\<close> is reached.
\<close>

definition climb :: "string \<Rightarrow> nat" where
  "climb p = (if p = ''.'' \<or> p = ''/'' then 0 else if p = ''//'' then 1 else length p + 2)"

lemma length_dropWhile_le_aux: "length (dropWhile P xs) \<le> length xs"
  by (induction xs) auto


lemma dirname_Cons: "dirname (c # cs) =
          (case dropWhile (\<lambda>x. x \<noteq> CHR ''/'') (dropWhile (\<lambda>x. x = CHR ''/'') (rev cs)) of
             [] \<Rightarrow> if c = CHR ''/'' then ''/'' else ''.''
           | s # r \<Rightarrow> if c = CHR ''/'' \<and> r = [] then ''//'' else c # rev r)"
  by (simp add: dirname_def)

lemma dirname_Cons_Nil:
  assumes "dropWhile (\<lambda>x. x \<noteq> CHR ''/'') (dropWhile (\<lambda>x. x = CHR ''/'') (rev cs)) = []"
  shows "dirname (c # cs) = (if c = CHR ''/'' then ''/'' else ''.'')"
  unfolding dirname_Cons assms by simp

lemma dirname_Cons_Cons:
  assumes "dropWhile (\<lambda>x. x \<noteq> CHR ''/'') (dropWhile (\<lambda>x. x = CHR ''/'') (rev cs)) = s # r"
  shows "dirname (c # cs) = (if c = CHR ''/'' \<and> r = [] then ''//'' else c # rev r)"
  unfolding dirname_Cons assms by simp


lemma climb_pos: "p \<noteq> ''.'' \<Longrightarrow> p \<noteq> ''/'' \<Longrightarrow> 0 < climb p"
  by (simp add: climb_def)

lemma climb_le: "climb q \<le> length q + 2"
  by (simp add: climb_def)

lemma climb_long: "3 \<le> length p \<Longrightarrow> climb p = length p + 2"
  by (auto simp: climb_def)

lemma last_segment_shorter:
  assumes "dropWhile (\<lambda>x. x \<noteq> CHR ''/'') (dropWhile (\<lambda>x. x = CHR ''/'') xs) = s # r"
  shows "length r + 2 \<le> length xs"
proof -
  let ?d = "dropWhile (\<lambda>x. x = CHR ''/'') xs"
  obtain a d' where d: "?d = a # d'"
    using assms by (cases ?d) simp_all
  have "a = hd ?d" using d by simp
  also have "\<dots> \<noteq> CHR ''/''"
    using hd_dropWhile [of "\<lambda>x. x = CHR ''/''" xs] d by simp
  finally have a: "a \<noteq> CHR ''/''" .
  have "s # r = dropWhile (\<lambda>x. x \<noteq> CHR ''/'') d'"
    using assms a unfolding d by simp
  then have "length (s # r) \<le> length d'"
    using length_dropWhile_le_aux [of "\<lambda>x. x \<noteq> CHR ''/''" d'] by simp
  moreover have "length (a # d') \<le> length xs"
    using length_dropWhile_le_aux [of "\<lambda>x. x = CHR ''/''" xs] unfolding d by simp
  ultimately show ?thesis by simp
qed

lemma dirname_climb: "dirname p \<noteq> p \<Longrightarrow> climb (dirname p) < climb p"
proof (cases p)
  case Nil
  then show ?thesis by (simp add: dirname_def climb_def)
next
  case p: (Cons c cs)
  assume neq: "dirname p \<noteq> p"
  show ?thesis
  proof (cases "dropWhile (\<lambda>x. x \<noteq> CHR ''/'') (dropWhile (\<lambda>x. x = CHR ''/'') (rev cs))")
    case Nil
    note d = dirname_Cons_Nil [OF Nil, of c]
    show ?thesis
    proof (cases "c = CHR ''/''")
      case True
      with d p have dp: "dirname p = ''/''" by simp
      with neq have "p \<noteq> ''/''" by auto
      moreover have "p \<noteq> ''.''" using True p by simp
      ultimately have "0 < climb p" by (rule climb_pos [rotated])
      then show ?thesis by (simp add: dp climb_def)
    next
      case False
      with d p have dp: "dirname p = ''.''" by simp
      with neq have "p \<noteq> ''.''" by auto
      moreover have "p \<noteq> ''/''" using False p by simp
      ultimately have "0 < climb p" by (rule climb_pos)
      then show ?thesis by (simp add: dp climb_def)
    qed
  next
    case (Cons s r)
    note dd = dirname_Cons_Cons [OF Cons, of c]
    have len: "length r + 2 \<le> length cs"
      using last_segment_shorter [OF Cons] by simp
    then have plen: "3 \<le> length p" using p by simp
    show ?thesis
    proof (cases "c = CHR ''/'' \<and> r = []")
      case True
      then have "dirname p = ''//''" using dd p by simp
      then have "climb (dirname p) = 1" by (simp add: climb_def)
      then show ?thesis using climb_long [OF plen] by simp
    next
      case False
      then have "dirname p = c # rev r" using dd p by simp
      then have "climb (dirname p) \<le> length r + 3"
        using climb_le [of "c # rev r"] by simp
      then show ?thesis using climb_long [OF plen] len p by simp
    qed
  qed
qed

text \<open>
  \<open>findWorkspaceRoot\<close> of the upload command. The probe \<open>hasGit d\<close> stands for
  \<open>fs.existsSync(path.join(d, '.git'))\<close>, a read of the file system; \<open>None\<close> is the
  \<open>null\<close> returned when \<open>path.dirname\<close> no longer changes the path.
\<close>

function findWorkspaceRoot :: "(string \<Rightarrow> bool) \<Rightarrow> string \<Rightarrow> string option" where
  "findWorkspaceRoot hasGit workspaceRoot =
     (if \<not> hasGit workspaceRoot then
        (let parentPath = dirname workspaceRoot in
         if parentPath = workspaceRoot then None
         else findWorkspaceRoot hasGit parentPath)
      else Some workspaceRoot)"
  by pat_completeness auto
termination
  by (relation "measure (\<lambda>(hasGit, p). climb p)") (auto simp: dirname_climb)


text \<open>
  The directories a walk from \<open>p\<close> visits: \<open>p\<close> and its successive \<open>dirname\<close>s, up to
  the first path that \<open>dirname\<close> leaves unchanged.
\<close>

function ancestors :: "string \<Rightarrow> string list" where
  "ancestors p = (if dirname p = p then [p] else p # ancestors (dirname p))"
  by pat_completeness auto
termination
  by (relation "measure climb") (auto simp: dirname_climb)


declare findWorkspaceRoot.simps [simp del]
declare ancestors.simps [simp del]






lemma self_ancestor: "p \<in> set (ancestors p)"
  by (subst ancestors.simps) simp

lemma dirname_ancestors: "d \<in> set (ancestors (dirname p)) \<Longrightarrow> d \<in> set (ancestors p)"
proof (cases "dirname p = p")
  case True
  assume "d \<in> set (ancestors (dirname p))"
  with True show ?thesis by simp
next
  case False
  assume "d \<in> set (ancestors (dirname p))"
  moreover have "ancestors p = p # ancestors (dirname p)"
    using False by (subst ancestors.simps) simp
  ultimately show ?thesis by simp
qed


lemma findWorkspaceRoot_Some:
  "findWorkspaceRoot hasGit p = Some d \<Longrightarrow> d \<in> set (ancestors p) \<and> hasGit d"
proof (induction hasGit p rule: findWorkspaceRoot.induct)
  case (1 hasGit p)
  show ?case
  proof (cases "hasGit p")
    case True
    with "1.prems" have "d = p" by (subst (asm) findWorkspaceRoot.simps) simp
    with True show ?thesis using self_ancestor [of p] by simp
  next
    case False
    have "findWorkspaceRoot hasGit p =
        (if dirname p = p then None else findWorkspaceRoot hasGit (dirname p))"
      using False by (subst findWorkspaceRoot.simps) (simp add: Let_def)
    with "1.prems" have neq: "dirname p \<noteq> p"
      and rec: "findWorkspaceRoot hasGit (dirname p) = Some d"
      by (simp_all split: if_splits)
    from "1.IH" [OF False refl neq rec] show ?thesis
      using dirname_ancestors [of d p] by simp
  qed
qed







section \<open>Names that avoid a collision\<close>

text \<open>
  The template literal \<open>`${baseName}-${counter}`\<close> prints the counter in decimal.
  The counter is a natural number here; the JavaScript number is exact up to \<open>2^53\<close>,
  far more than the number of names a directory can hold.
\<close>

definition digitChar :: "nat \<Rightarrow> char" where
  "digitChar n = ''0123456789'' ! n"

function decimal :: "nat \<Rightarrow> string" where
  "decimal n = (if n < 10 then [digitChar n] else decimal (n div 10) @ [digitChar (n mod 10)])"
  by pat_completeness auto
termination
  by (relation "measure id") auto

declare decimal.simps [simp del]

definition suffixed :: "string \<Rightarrow> nat \<Rightarrow> string" where
  "suffixed baseName counter = baseName @ ''-'' @ decimal counter"

lemma digitChar_inj: "a < 10 \<Longrightarrow> b < 10 \<Longrightarrow> digitChar a = digitChar b \<Longrightarrow> a = b"
proof -
  assume a: "a < 10" and b: "b < 10" and eq: "digitChar a = digitChar b"
  have "distinct ''0123456789''" by simp
  moreover have "a < length ''0123456789''" "b < length ''0123456789''"
    using a b by simp_all
  ultimately show "a = b"
    using eq unfolding digitChar_def by (simp only: nth_eq_iff_index_eq)
qed

lemma decimal_length: "10 \<le> n \<Longrightarrow> 2 \<le> length (decimal n)"
proof -
  assume n: "10 \<le> n"
  have ne: "decimal (n div 10) \<noteq> []"
    by (subst decimal.simps) simp
  have "decimal n = decimal (n div 10) @ [digitChar (n mod 10)]"
    using n by (subst decimal.simps) simp
  then show ?thesis using ne by (cases "decimal (n div 10)") simp_all
qed

lemma decimal_inj: "decimal a = decimal b \<Longrightarrow> a = b"
proof (induction a arbitrary: b rule: decimal.induct)
  case (1 a)
  show ?case
  proof (cases "a < 10")
    case small: True
    then have da: "decimal a = [digitChar a]" by (subst decimal.simps) simp
    show ?thesis
    proof (cases "b < 10")
      case True
      then have "decimal b = [digitChar b]" by (subst decimal.simps) simp
      with da "1.prems" small True show ?thesis by (simp add: digitChar_inj)
    next
      case False
      then have "2 \<le> length (decimal b)" by (simp add: decimal_length)
      with da "1.prems" show ?thesis by simp
    qed
  next
    case big: False
    then have da: "decimal a = decimal (a div 10) @ [digitChar (a mod 10)]"
      by (subst decimal.simps) simp
    show ?thesis
    proof (cases "b < 10")
      case True
      then have "decimal b = [digitChar b]" by (subst decimal.simps) simp
      moreover have "2 \<le> length (decimal a)" using big by (simp add: decimal_length)
      ultimately show ?thesis using "1.prems" by simp
    next
      case False
      then have "decimal b = decimal (b div 10) @ [digitChar (b mod 10)]"
        by (subst decimal.simps) simp
      with da "1.prems" have q: "decimal (a div 10) = decimal (b div 10)"
        and r: "digitChar (a mod 10) = digitChar (b mod 10)" by simp_all
      from "1.IH" [OF big q] have "a div 10 = b div 10" .
      moreover from r have "a mod 10 = b mod 10" by (simp add: digitChar_inj)
      ultimately show ?thesis by (metis div_mult_mod_eq)
    qed
  qed
qed

lemma suffixed_inj: "inj (suffixed baseName)"
  by (rule injI) (simp add: suffixed_def decimal_inj)

definition taken :: "string fset \<Rightarrow> string \<Rightarrow> nat \<Rightarrow> nat set" where
  "taken existing baseName counter = {k. counter \<le> k \<and> suffixed baseName k |\<in>| existing}"

lemma finite_taken: "finite (taken existing baseName counter)"
proof -
  have "taken existing baseName counter \<subseteq> suffixed baseName -` fset existing"
    by (auto simp: taken_def)
  moreover have "finite (suffixed baseName -` fset existing)"
    by (rule finite_vimageI [OF _ suffixed_inj]) simp
  ultimately show ?thesis by (rule finite_subset)
qed

lemma taken_step:
  "taken existing baseName counter =
     (if suffixed baseName counter |\<in>| existing
      then insert counter (taken existing baseName (Suc counter))
      else taken existing baseName (Suc counter))"
  by (auto simp: taken_def Suc_le_eq le_less)

lemma taken_decreases:
  "2 * card (taken existing baseName (Suc counter))
     + (if suffixed baseName counter |\<in>| existing then 1 else 0)
   < 2 * card (taken existing baseName counter) + 1"
proof (cases "suffixed baseName counter |\<in>| existing")
  case True
  have "counter \<notin> taken existing baseName (Suc counter)" by (simp add: taken_def)
  then have "card (taken existing baseName counter) = Suc (card (taken existing baseName (Suc counter)))"
    using True finite_taken [of existing baseName "Suc counter"]
    by (subst taken_step) simp
  with True show ?thesis by simp
next
  case False
  then have "taken existing baseName counter = taken existing baseName (Suc counter)"
    by (subst taken_step) simp
  with False show ?thesis by simp
qed

text \<open>
  The loop of \<open>getWorkspaceName\<close> (\<open>getters.js\<close>); the \<open>folder add\<close> command runs the
  same loop on \<open>baseFolderName\<close> and \<open>finalFolderName\<close>. \<open>existing\<close> is the set of
  names \<open>n\<close> for which \<open>fs.existsSync(path.join(dir, n))\<close> holds.
\<close>

function getWorkspaceName_while :: "string fset \<Rightarrow> string \<Rightarrow> string \<Rightarrow> nat \<Rightarrow> string" where
  "getWorkspaceName_while existing baseName workspaceName counter =
     (if workspaceName |\<in>| existing
      then getWorkspaceName_while existing baseName (suffixed baseName counter) (counter + 1)
      else workspaceName)"
  by pat_completeness auto
termination
proof (relation "measure (\<lambda>(existing, baseName, workspaceName, counter).
    2 * card (taken existing baseName counter) + (if workspaceName |\<in>| existing then 1 else 0))")
  show "wf (measure (\<lambda>(existing, baseName, workspaceName, counter).
    2 * card (taken existing baseName counter) + (if workspaceName |\<in>| existing then 1 else 0)))"
    by simp
next
  fix existing :: "string fset" and baseName workspaceName :: string and counter :: nat
  assume "workspaceName |\<in>| existing"
  then show "((existing, baseName, suffixed baseName counter, counter + 1),
              existing, baseName, workspaceName, counter)
      \<in> measure (\<lambda>(existing, baseName, workspaceName, counter).
    2 * card (taken existing baseName counter) + (if workspaceName |\<in>| existing then 1 else 0))"
    using taken_decreases [of existing baseName counter] by simp
qed

declare getWorkspaceName_while.simps [simp del]

lemma getWorkspaceName_while_fresh: "getWorkspaceName_while existing baseName workspaceName counter |\<notin>| existing"
proof (induction existing baseName workspaceName counter rule: getWorkspaceName_while.induct)
  case (1 existing baseName workspaceName counter)
  then show ?case by (subst getWorkspaceName_while.simps) simp
qed

lemma getWorkspaceName_while_least:
  "getWorkspaceName_while existing baseName workspaceName counter =
     (if workspaceName |\<notin>| existing then workspaceName
      else suffixed baseName (LEAST k. counter \<le> k \<and> suffixed baseName k |\<notin>| existing))"
proof (induction existing baseName workspaceName counter rule: getWorkspaceName_while.induct)
  case (1 existing baseName workspaceName counter)
  show ?case
  proof (cases "workspaceName |\<in>| existing")
    case False
    then show ?thesis by (subst getWorkspaceName_while.simps) simp
  next
    case True
    have step: "getWorkspaceName_while existing baseName workspaceName counter =
        getWorkspaceName_while existing baseName (suffixed baseName counter) (counter + 1)"
      using True by (subst getWorkspaceName_while.simps) simp
    show ?thesis
    proof (cases "suffixed baseName counter |\<in>| existing")
      case free: False
      have "(LEAST k. counter \<le> k \<and> suffixed baseName k |\<notin>| existing) = counter"
        using free by (intro Least_equality) auto
      with "1.IH" [OF True] step True free show ?thesis by simp
    next
      case used: True
      have "(\<lambda>k. counter \<le> k \<and> suffixed baseName k |\<notin>| existing) =
            (\<lambda>k. counter + 1 \<le> k \<and> suffixed baseName k |\<notin>| existing)"
      proof (rule ext)
        fix k
        show "(counter \<le> k \<and> suffixed baseName k |\<notin>| existing) =
              (counter + 1 \<le> k \<and> suffixed baseName k |\<notin>| existing)"
          using used by (cases "k = counter") auto
      qed
      with "1.IH" [OF True] step True used show ?thesis by simp
    qed
  qed
qed


definition getWorkspaceName :: "string fset \<Rightarrow> string \<Rightarrow> string" where
  "getWorkspaceName existing workspaceName =
     getWorkspaceName_while existing workspaceName workspaceName 1"

definition foldersCommand_finalFolderName :: "string fset \<Rightarrow> string \<Rightarrow> string" where
  "foldersCommand_finalFolderName existing baseFolderName =
     getWorkspaceName_while existing baseFolderName baseFolderName 1"

lemma free_suffix_exists: "\<exists>k. 1 \<le> k \<and> suffixed baseName k |\<notin>| existing"
proof -
  from finite_taken [of existing baseName 1]
  obtain m where m: "\<forall>k \<in> taken existing baseName 1. k \<le> m"
    using finite_nat_set_iff_bounded_le by blast
  have "Suc m \<notin> taken existing baseName 1" using m by auto
  then have "suffixed baseName (Suc m) |\<notin>| existing" by (simp add: taken_def)
  then show ?thesis by (intro exI [of _ "Suc m"]) simp
qed

text \<open>
  C9. The routine returns the base name when it is unused, and otherwise the base name
  with the smallest counter \<open>k \<ge> 1\<close> for which \<open>baseName-k\<close> is unused (such a counter
  exists); the name returned is never one of the existing names. The loop of the folder
  command gives the same name.
\<close>

theorem C9_next_available_name:
  "getWorkspaceName existing baseName =
     (if baseName |\<notin>| existing then baseName
      else suffixed baseName (LEAST k. 1 \<le> k \<and> suffixed baseName k |\<notin>| existing)) \<and>
   (\<exists>k. 1 \<le> k \<and> suffixed baseName k |\<notin>| existing) \<and>
   getWorkspaceName existing baseName |\<notin>| existing \<and>
   foldersCommand_finalFolderName existing baseName = getWorkspaceName existing baseName"
  unfolding getWorkspaceName_def foldersCommand_finalFolderName_def
  using getWorkspaceName_while_least [of existing baseName baseName 1]
    getWorkspaceName_while_fresh [of existing baseName baseName 1]
    free_suffix_exists [of baseName existing]
  by simp

theorem C9_next_available_name_witness:
  "getWorkspaceName {|''notes'', ''notes-1''|} ''notes'' = ''notes-2'' \<and>
   getWorkspaceName {|''notes'', ''notes-1''|} ''notes'' |\<notin>| {|''notes'', ''notes-1''|}"
proof -
  have "getWorkspaceName {|''notes'', ''notes-1''|} ''notes'' = ''notes-2''"
    by code_simp
  then show ?thesis
    using C9_next_available_name [of "{|''notes'', ''notes-1''|}" "''notes''"] by simp
qed

section \<open>The version-control engine as the code sees it\<close>

text \<open>
  Every use the commit helpers make of \<open>simple-git\<close> is one of the calls below; the
  first argument is the directory the instance was created for.
  \<^item> \<open>SimpleGit d\<close>: \<open>simpleGit(d)\<close>, which throws when \<open>d\<close> does not exist;
  \<^item> \<open>RevParseShowToplevel d\<close>: \<open>git.revparse(['--show-toplevel'])\<close>;
  \<^item> \<open>RevParseAbbrevRefHead d\<close>: \<open>git.revparse(['--abbrev-ref', 'HEAD'])\<close>;
  \<^item> \<open>Checkout d b\<close>: \<open>git.checkout(b)\<close>;
  \<^item> \<open>CheckoutLocalBranch d b\<close>: \<open>git.checkoutLocalBranch(b)\<close>;
  \<^item> \<open>Add d spec\<close>: \<open>git.add(spec)\<close>;
  \<^item> \<open>Commit d m\<close>: \<open>git.commit(m)\<close>;
  \<^item> \<open>RawShowSuperproject d\<close>:
    \<open>git.raw(['rev-parse', '--show-superproject-working-tree'])\<close>.
\<close>

datatype git_call =
    SimpleGit string
  | RevParseShowToplevel string
  | RevParseAbbrevRefHead string
  | Checkout string string
  | CheckoutLocalBranch string string
  | Add string string
  | Commit string string
  | RawShowSuperproject string

text \<open>
  The engine is a parameter of the model: it answers a call in a state of the outside
  world (repositories, working trees) with a result and the next state. \<open>Inl m\<close> is a
  rejected promise or a thrown error whose \<open>message\<close> is \<open>m\<close>; \<open>Inr out\<close> is the value
  the call resolves with (for the queries, the text read from the engine).
\<close>

type_synonym 's engine = "git_call \<Rightarrow> 's \<Rightarrow> (string + string) \<times> 's"

text \<open>The lines the helpers print, one constructor for each message template.\<close>

datatype line =
    CheckedOutBranch string string
  | CreatedBranch string string
  | StagedCurrentDirectory
  | StagedAllChanges
  | CommittedChanges string string
  | DetectedSubmodule string
  | StagedSubmodule string
  | CommittedSubmoduleUpdate string string
  | NoParentUpdateNeeded
  | ErrorCommittingChanges string

text \<open>
  A run threads the state of the outside world and records what the code did: the calls
  it made, each with the engine's answer, and the lines it printed.
\<close>

record 's world =
  engineState :: 's
  calls :: "(git_call \<times> (string + string)) list"
  console :: "line list"

type_synonym ('s, 'a) action = "'s world \<Rightarrow> (string + 'a) \<times> 's world"

definition start :: "'s \<Rightarrow> 's world" where
  "start s = \<lparr>engineState = s, calls = [], console = []\<rparr>"

definition git :: "'s engine \<Rightarrow> git_call \<Rightarrow> ('s, string) action" where
  "git eng c w =
     (case eng c (engineState w) of
        (r, s') \<Rightarrow> (r, w\<lparr>engineState := s', calls := calls w @ [(c, r)]\<rparr>))"

definition consoleLog :: "line \<Rightarrow> ('s, unit) action" where
  "consoleLog l w = (Inr (), w\<lparr>console := console w @ [l]\<rparr>)"

definition succeed :: "'a \<Rightarrow> ('s, 'a) action" where
  "succeed x w = (Inr x, w)"

text \<open>Sequencing of awaited steps: an error ends the sequence and is passed on.\<close>

definition andThen :: "('s, 'a) action \<Rightarrow> ('a \<Rightarrow> ('s, 'b) action) \<Rightarrow> ('s, 'b) action" where
  "andThen m f w = (case m w of (Inl e, w') \<Rightarrow> (Inl e, w') | (Inr x, w') \<Rightarrow> f x w')"

text \<open>\<open>try { m } catch (error) { h error.message }\<close>.\<close>

definition tryCatch :: "('s, 'a) action \<Rightarrow> (string \<Rightarrow> ('s, 'a) action) \<Rightarrow> ('s, 'a) action" where
  "tryCatch m h w = (case m w of (Inl e, w') \<Rightarrow> h e w' | (Inr x, w') \<Rightarrow> (Inr x, w'))"

section \<open>Submodule Detector\<close>

text \<open>
  \<open>isSubmodule\<close> as exported by the commit helper and by \<open>validations.js\<close> (the two
  texts are the same). The instance is created before the \<open>try\<close> block; the query and
  the test of its result are inside it; \<open>null\<close> is \<open>None\<close>.
\<close>

definition isSubmodule :: "'s engine \<Rightarrow> string \<Rightarrow> ('s, string option) action" where
  "isSubmodule eng repoPath =
     andThen (git eng (SimpleGit repoPath)) (\<lambda>_.
       tryCatch
         (andThen (git eng (RawShowSuperproject repoPath)) (\<lambda>result.
            if result \<noteq> [] \<and> trim result \<noteq> [] then succeed (Some (trim result))
            else succeed None))
         (\<lambda>error. succeed None))"

section \<open>Change Propagator\<close>

text \<open>
  \<open>commitChanges(currentPath, commitMessage, branchName = 'main')\<close>, the version with
  branch handling. \<open>relative\<close> is Node's \<open>path.relative\<close>, taken as a parameter.
  \<open>ensureBranch\<close> is the block that runs after the current branch is read,
  \<open>updateParent\<close> the block under \<open>if (parentRepoPath)\<close> (taken when the value is
  neither \<open>null\<close> nor the empty string), \<open>commitChanges_try\<close> the body of the outer
  \<open>try\<close>; \<open>commitChanges\<close> wraps it in the \<open>catch\<close> that prints the error and
  returns normally.
\<close>

definition ensureBranch :: "'s engine \<Rightarrow> string \<Rightarrow> string \<Rightarrow> string \<Rightarrow> ('s, unit) action" where
  "ensureBranch eng repoRoot branchName currentBranch =
     (if trim currentBranch = ''HEAD'' then
        tryCatch
          (andThen (git eng (Checkout repoRoot branchName)) (\<lambda>_.
             consoleLog (CheckedOutBranch branchName repoRoot)))
          (\<lambda>error.
             andThen (git eng (CheckoutLocalBranch repoRoot branchName)) (\<lambda>_.
               consoleLog (CreatedBranch branchName repoRoot)))
      else succeed ())"

definition relativeOrDot :: "(string \<Rightarrow> string \<Rightarrow> string) \<Rightarrow> string \<Rightarrow> string \<Rightarrow> string" where
  "relativeOrDot relative repoRoot currentPath =
     (if relative repoRoot currentPath = [] then ''.'' else relative repoRoot currentPath)"

definition submoduleMessage :: "string \<Rightarrow> string \<Rightarrow> string" where
  "submoduleMessage submoduleName commitMessage =
     ''Update submodule: '' @ [CHR 0x22] @ submoduleName @ [CHR 0x22] @ '' - '' @ commitMessage"

definition updateParent :: "'s engine \<Rightarrow> string \<Rightarrow> string \<Rightarrow> string \<Rightarrow> ('s, unit) action" where
  "updateParent eng repoRoot commitMessage parentRepoPath =
     andThen (consoleLog (DetectedSubmodule parentRepoPath)) (\<lambda>_.
     andThen (git eng (SimpleGit parentRepoPath)) (\<lambda>_.
     let submoduleName = basename repoRoot in
     andThen (git eng (Add parentRepoPath (''./'' @ submoduleName))) (\<lambda>_.
     andThen (consoleLog (StagedSubmodule submoduleName)) (\<lambda>_.
     andThen (git eng (Commit parentRepoPath (submoduleMessage submoduleName commitMessage))) (\<lambda>_.
     consoleLog (CommittedSubmoduleUpdate submoduleName parentRepoPath))))))"

definition commitChanges_try ::
  "'s engine \<Rightarrow> (string \<Rightarrow> string \<Rightarrow> string) \<Rightarrow> string \<Rightarrow> string \<Rightarrow> string \<Rightarrow> ('s, unit) action" where
  "commitChanges_try eng relative currentPath commitMessage branchName =
     andThen (git eng (SimpleGit currentPath)) (\<lambda>_.
     andThen (git eng (RevParseShowToplevel currentPath)) (\<lambda>repoRoot.
     andThen (git eng (SimpleGit repoRoot)) (\<lambda>_.
     andThen (git eng (RevParseAbbrevRefHead repoRoot)) (\<lambda>currentBranch.
     andThen (ensureBranch eng repoRoot branchName currentBranch) (\<lambda>_.
     let relativePath = relativeOrDot relative repoRoot currentPath in
     andThen (git eng (Add repoRoot (relativePath @ ''/.''))) (\<lambda>_.
     andThen (consoleLog StagedCurrentDirectory) (\<lambda>_.
     andThen (git eng (Commit repoRoot commitMessage)) (\<lambda>_.
     andThen (consoleLog (CommittedChanges commitMessage repoRoot)) (\<lambda>_.
     andThen (isSubmodule eng repoRoot) (\<lambda>parentRepoPath.
     case parentRepoPath of
       Some parent \<Rightarrow>
         if parent \<noteq> [] then updateParent eng repoRoot commitMessage parent
         else consoleLog NoParentUpdateNeeded
     | None \<Rightarrow> consoleLog NoParentUpdateNeeded))))))))))"

text \<open>
  The third parameter is optional: \<open>None\<close> is a call with two arguments, for which
  \<open>branchName\<close> takes its default \<open>'main'\<close>. Every caller in the repository passes two.
\<close>

definition defaultBranch :: "string option \<Rightarrow> string" where
  "defaultBranch branchName = (case branchName of None \<Rightarrow> ''main'' | Some b \<Rightarrow> b)"

definition commitChanges ::
  "'s engine \<Rightarrow> (string \<Rightarrow> string \<Rightarrow> string) \<Rightarrow> string \<Rightarrow> string \<Rightarrow> string option \<Rightarrow> ('s, unit) action" where
  "commitChanges eng relative currentPath commitMessage branchName =
     tryCatch
       (commitChanges_try eng relative currentPath commitMessage (defaultBranch branchName))
       (\<lambda>error. consoleLog (ErrorCommittingChanges error))"

text \<open>
  \<open>commitChanges(repoPath, commitMessage)\<close> of \<open>src/functions/commitHelper.js\<close>, the
  version the folder, note and workspace commands import.
\<close>

definition helperSubmoduleMessage :: "string \<Rightarrow> string \<Rightarrow> string" where
  "helperSubmoduleMessage submoduleName commitMessage =
     ''Update submodule: '' @ [CHR 0x22] @ submoduleName @ [CHR 0x22]
       @ '' to latest commit in workspace: '' @ [CHR 0x22] @ commitMessage @ [CHR 0x22]"

definition helperUpdateParent :: "'s engine \<Rightarrow> string \<Rightarrow> string \<Rightarrow> string \<Rightarrow> ('s, unit) action" where
  "helperUpdateParent eng repoPath commitMessage parentRepoPath =
     andThen (consoleLog (DetectedSubmodule parentRepoPath)) (\<lambda>_.
     andThen (git eng (SimpleGit parentRepoPath)) (\<lambda>_.
     let submoduleName = basename repoPath in
     andThen (git eng (Add parentRepoPath parentRepoPath)) (\<lambda>_.
     andThen (consoleLog (StagedSubmodule submoduleName)) (\<lambda>_.
     andThen (git eng (Commit parentRepoPath (helperSubmoduleMessage submoduleName commitMessage))) (\<lambda>_.
     consoleLog (CommittedSubmoduleUpdate submoduleName parentRepoPath))))))"

definition commitHelper_try :: "'s engine \<Rightarrow> string \<Rightarrow> string \<Rightarrow> ('s, unit) action" where
  "commitHelper_try eng repoPath commitMessage =
     andThen (git eng (SimpleGit repoPath)) (\<lambda>_.
     andThen (git eng (Add repoPath ''.'')) (\<lambda>_.
     andThen (consoleLog StagedAllChanges) (\<lambda>_.
     andThen (git eng (Commit repoPath commitMessage)) (\<lambda>_.
     andThen (consoleLog (CommittedChanges commitMessage repoPath)) (\<lambda>_.
     andThen (isSubmodule eng repoPath) (\<lambda>parentRepoPath.
     case parentRepoPath of
       Some parent \<Rightarrow>
         if parent \<noteq> [] then helperUpdateParent eng repoPath commitMessage parent
         else consoleLog NoParentUpdateNeeded
     | None \<Rightarrow> consoleLog NoParentUpdateNeeded))))))"

definition commitHelper_commitChanges :: "'s engine \<Rightarrow> string \<Rightarrow> string \<Rightarrow> ('s, unit) action" where
  "commitHelper_commitChanges eng repoPath commitMessage =
     tryCatch (commitHelper_try eng repoPath commitMessage)
       (\<lambda>error. consoleLog (ErrorCommittingChanges error))"

section \<open>A sample engine\<close>

text \<open>
  A small engine on which concrete runs of the code are evaluated.
  Its state gives, for each repository root, the superproject (empty when there is
  none), the checked-out reference (\<open>HEAD\<close> when detached), the local branches, and
  the changed paths: those not yet in the index, those in the index, and those recorded
  by a commit. It follows the engine interface of the specification: \<open>add\<close> moves the
  changed paths its pathspec covers into the index, \<open>commit\<close> records the whole index
  and fails when the index is empty, \<open>checkout\<close> needs an existing branch and
  \<open>checkoutLocalBranch\<close> a new one; a commit in a submodule leaves the submodule's
  entry changed in the superproject.
\<close>

record repo =
  superproject :: string
  headRef :: string
  branches :: "string list"
  unstaged :: "string list"
  staged :: "string list"
  committed :: "string list"

definition emptyRepo :: repo where
  "emptyRepo = \<lparr>superproject = [], headRef = ''main'', branches = [''main''],
                 unstaged = [], staged = [], committed = []\<rparr>"

text \<open>
  The state lists the repositories by root; a root that is not listed holds an empty
  repository on \<open>main\<close>.
\<close>

type_synonym sample = "(string \<times> repo) list"

fun look :: "sample \<Rightarrow> string \<Rightarrow> repo" where
  "look [] d = emptyRepo"
| "look ((k, r) # s) d = (if k = d then r else look s d)"

fun put :: "string \<Rightarrow> repo \<Rightarrow> sample \<Rightarrow> sample" where
  "put d r [] = [(d, r)]"
| "put d r ((k, v) # s) = (if k = d then (d, r) # s else (k, v) # put d r s)"

definition sampleRoots :: "string list" where
  "sampleRoots = [''/notes/ws'', ''/notes'']"

definition inside :: "string \<Rightarrow> string \<Rightarrow> bool" where
  "inside dir p \<longleftrightarrow> p = dir \<or> take (length dir + 1) p = dir @ ''/''"

text \<open>
  The changed paths of the repository at \<open>d\<close> that the pathspec \<open>spec\<close> covers: all of
  them for the root itself (\<open>.\<close>, \<open>./.\<close>, or the root's own path), otherwise those at
  or below the directory the pathspec names.
\<close>

definition covers :: "string \<Rightarrow> string \<Rightarrow> string \<Rightarrow> bool" where
  "covers d spec p =
     (let a = (if take 2 spec = ''./'' then drop 2 spec else spec);
          b = (if drop (length a - 2) a = ''/.'' then take (length a - 2) a else a)
      in spec = d \<or> b = [] \<or> b = ''.'' \<or> inside b p)"

definition sampleGit :: "sample engine" where
  "sampleGit c s =
     (case c of
        SimpleGit d \<Rightarrow> (Inr [], s)
      | RevParseShowToplevel d \<Rightarrow>
          (case filter (\<lambda>r. inside r d) sampleRoots of
             [] \<Rightarrow> (Inl ''not a git repository'', s)
           | r # _ \<Rightarrow> (Inr r, s))
      | RevParseAbbrevRefHead d \<Rightarrow> (Inr (headRef (look s d)), s)
      | Checkout d b \<Rightarrow>
          (if b \<in> set (branches (look s d))
           then (Inr [], put d ((look s d)\<lparr>headRef := b\<rparr>) s)
           else (Inl ''pathspec did not match'', s))
      | CheckoutLocalBranch d b \<Rightarrow>
          (if b \<in> set (branches (look s d)) then (Inl ''branch already exists'', s)
           else (Inr [],
                 put d ((look s d)\<lparr>headRef := b, branches := b # branches (look s d)\<rparr>) s))
      | Add d spec \<Rightarrow>
          (Inr [], put d ((look s d)\<lparr>
             unstaged := filter (\<lambda>p. \<not> covers d spec p) (unstaged (look s d)),
             staged := staged (look s d) @ filter (covers d spec) (unstaged (look s d))\<rparr>) s)
      | Commit d m \<Rightarrow>
          (if staged (look s d) = [] then (Inl ''nothing to commit'', s)
           else
             (let s1 = put d ((look s d)\<lparr>staged := [],
                          committed := committed (look s d) @ staged (look s d)\<rparr>) s;
                  sup = superproject (look s d)
              in (Inr [],
                  if sup = [] then s1
                  else put sup ((look s1 sup)\<lparr>unstaged := basename d # unstaged (look s1 sup)\<rparr>) s1)))
      | RawShowSuperproject d \<Rightarrow>
          (if superproject (look s d) = [] then (Inr [], s)
           else (Inr (superproject (look s d) @ [CHR 0x0A]), s)))"

text \<open>\<open>path.relative\<close> on the sample's paths: a directory at or below \<open>from\<close>.\<close>

definition sampleRelative :: "string \<Rightarrow> string \<Rightarrow> string" where
  "sampleRelative from to = (if inside from to then drop (length from + 1) to else to)"

text \<open>
  \<open>cleanSample\<close>: nothing changed anywhere. \<open>sample1\<close>: the workspace \<open>/notes/ws\<close>, a
  submodule of \<open>/notes\<close>, is detached and has changes under \<open>A\<close> and \<open>B\<close>.
  \<open>sample2\<close>: the workspace is on \<open>main\<close> with one change under \<open>A\<close>. \<open>sample3\<close>:
  as \<open>sample1\<close>, on \<open>main\<close>, with the change under \<open>B\<close> already in the index.
  \<open>sample4\<close>: the superproject has a change of its own, \<open>todo.md\<close>.
  \<open>sample5\<close>: a detached repository whose only branch is \<open>dev\<close>.
\<close>

definition cleanSample :: sample where
  "cleanSample = []"

definition sample1 :: sample where
  "sample1 =
     [(''/notes/ws'', emptyRepo\<lparr>superproject := ''/notes'', headRef := ''HEAD'',
          unstaged := [''A/a.md'', ''B/b.md'']\<rparr>)]"


definition sample3 :: sample where
  "sample3 =
     [(''/notes/ws'', emptyRepo\<lparr>superproject := ''/notes'', unstaged := [''A/a.md''],
          staged := [''B/b.md'']\<rparr>)]"

definition sample4 :: sample where
  "sample4 =
     [(''/notes/ws'', emptyRepo\<lparr>superproject := ''/notes'', unstaged := [''a.md'']\<rparr>),
      (''/notes'', emptyRepo\<lparr>unstaged := [''todo.md'']\<rparr>)]"


text \<open>What can be observed of the sample engine's state.\<close>

definition sampleStaged :: "sample \<Rightarrow> (string \<times> string) set" where
  "sampleStaged s = {(d, p). p \<in> set (staged (look s d))}"

definition sampleCommitted :: "sample \<Rightarrow> (string \<times> string) set" where
  "sampleCommitted s = {(d, p). p \<in> set (committed (look s d))}"

definition sampleSelected :: "string \<Rightarrow> string \<Rightarrow> (string \<times> string) set" where
  "sampleSelected d spec = {(d', p). d' = d \<and> covers d spec p}"


section \<open>What a run did\<close>

text \<open>Readings of the record of a run that the statements below use.\<close>

definition isCommit :: "git_call \<Rightarrow> bool" where
  "isCommit c = (case c of Commit d m \<Rightarrow> True | _ \<Rightarrow> False)"

definition isShowSuperproject :: "git_call \<Rightarrow> bool" where
  "isShowSuperproject c = (case c of RawShowSuperproject d \<Rightarrow> True | _ \<Rightarrow> False)"



definition accepted :: "git_call \<times> (string + string) \<Rightarrow> bool" where
  "accepted x = (case snd x of Inl e \<Rightarrow> False | Inr out \<Rightarrow> True)"


text \<open>The world after further calls \<open>tr\<close> and further lines \<open>lg\<close>, in engine state \<open>s\<close>.\<close>

definition extend :: "'s world \<Rightarrow> 's \<Rightarrow> (git_call \<times> (string + string)) list \<Rightarrow> line list \<Rightarrow> 's world" where
  "extend w s tr lg = w\<lparr>engineState := s, calls := calls w @ tr, console := console w @ lg\<rparr>"

text \<open>
  \<open>replay\<close> asks the engine the calls of a record in order and checks each answer
  against the recorded one; it gives the state reached, or \<open>None\<close> when an answer
  differs.
\<close>

fun replay :: "'s engine \<Rightarrow> (git_call \<times> (string + string)) list \<Rightarrow> 's \<Rightarrow> 's option" where
  "replay eng [] s = Some s"
| "replay eng ((c, r) # tr) s =
     (case eng c s of (r', s') \<Rightarrow> if r' = r then replay eng tr s' else None)"

text \<open>
  What the statements about the state of a repository assume of an engine, in terms of
  what can be observed of its state.

  \<open>indexDiscipline\<close>: only a stage call puts something in the index, and only what its
  pathspec selects; only what is in the index gets committed. \<open>stagedIn\<close> and
  \<open>committedIn\<close> observe the index and the commits; \<open>selected d spec\<close> is what the
  pathspec \<open>spec\<close>, given in directory \<open>d\<close>, selects.

  \<open>branchDiscipline\<close>: \<open>headOf s d\<close> is the reference checked out in the repository at
  \<open>d\<close>, the text \<open>rev-parse --abbrev-ref HEAD\<close> prints for it (\<open>HEAD\<close> when detached);
  an accepted \<open>checkout\<close> or \<open>checkoutLocalBranch\<close> of \<open>b\<close> in \<open>d\<close> makes it \<open>b\<close>
  there, and no other call, and no rejected call, changes it.
\<close>

definition indexDiscipline ::
  "'s engine \<Rightarrow> ('s \<Rightarrow> 'f set) \<Rightarrow> ('s \<Rightarrow> 'f set) \<Rightarrow> (string \<Rightarrow> string \<Rightarrow> 'f set) \<Rightarrow> bool" where
  "indexDiscipline eng stagedIn committedIn selected \<longleftrightarrow>
     (\<forall>c s. committedIn (snd (eng c s)) \<subseteq> committedIn s \<union> stagedIn s \<and>
            stagedIn (snd (eng c s)) \<subseteq>
              stagedIn s \<union> (case c of Add d spec \<Rightarrow> selected d spec | _ \<Rightarrow> {}))"



section \<open>Stepping through a run\<close>

text \<open>
  Each rule below turns the equation of one step, or of one block of the helpers, into
  the cases of what the engine answered; a run is analysed by applying them in order.
\<close>

lemma extend_simps [simp]:
  "engineState (extend w s tr lg) = s"
  "calls (extend w s tr lg) = calls w @ tr"
  "console (extend w s tr lg) = console w @ lg"
  "extend (extend w s tr lg) s' tr' lg' = extend w s' (tr @ tr') (lg @ lg')"
  by (simp_all add: extend_def)

lemma trim_Nil [simp]: "trim [] = []"
  by (simp add: trim_def)

lemma andThenE:
  assumes "andThen m f w = (r, w')"
  obtains (fail) e where "m w = (Inl e, w')" "r = Inl e"
        | (ok) x w1 where "m w = (Inr x, w1)" "f x w1 = (r, w')"
  using assms by (auto simp: andThen_def split: prod.splits sum.splits)

lemma tryCatchE:
  assumes "tryCatch m h w = (r, w')"
  obtains (caught) e w1 where "m w = (Inl e, w1)" "h e w1 = (r, w')"
        | (ok) x where "m w = (Inr x, w')" "r = Inr x"
  using assms by (auto simp: tryCatch_def split: prod.splits sum.splits)

lemma gitE:
  assumes "git eng c w = (r, w')"
  obtains s' where "eng c (engineState w) = (r, s')" "w' = extend w s' [(c, r)] []"
  using assms by (auto simp: git_def extend_def split: prod.splits)

lemma consoleLogE:
  assumes "consoleLog l w = (r, w')"
  obtains "r = Inr ()" "w' = extend w (engineState w) [] [l]"
  using assms by (auto simp: consoleLog_def extend_def)

lemma succeedE:
  assumes "succeed x w = (r, w')"
  obtains "r = Inr x" "w' = w"
  using assms by (auto simp: succeed_def)

lemmas stepE = andThenE tryCatchE gitE consoleLogE succeedE

lemma start_simps [simp]:
  "engineState (start s) = s" "calls (start s) = []" "console (start s) = []"
  by (simp_all add: start_def)

lemma ensureBranchE:
  assumes "ensureBranch eng root b cb w = (r, w')"
  obtains (named) "trim cb \<noteq> ''HEAD''" "r = Inr ()" "w' = w"
  | (checkedOut) x s1 where "trim cb = ''HEAD''"
      "eng (Checkout root b) (engineState w) = (Inr x, s1)" "r = Inr ()"
      "w' = extend w s1 [(Checkout root b, Inr x)] [CheckedOutBranch b root]"
  | (created) e s1 x s2 where "trim cb = ''HEAD''"
      "eng (Checkout root b) (engineState w) = (Inl e, s1)"
      "eng (CheckoutLocalBranch root b) s1 = (Inr x, s2)" "r = Inr ()"
      "w' = extend w s2 [(Checkout root b, Inl e), (CheckoutLocalBranch root b, Inr x)]
             [CreatedBranch b root]"
  | (refused) e s1 e' s2 where "trim cb = ''HEAD''"
      "eng (Checkout root b) (engineState w) = (Inl e, s1)"
      "eng (CheckoutLocalBranch root b) s1 = (Inl e', s2)" "r = Inl e'"
      "w' = extend w s2 [(Checkout root b, Inl e), (CheckoutLocalBranch root b, Inl e')] []"
  using assms unfolding ensureBranch_def
  by (auto elim!: stepE split: if_splits)

lemma isSubmoduleE:
  assumes "isSubmodule eng p w = (r, w')"
  obtains (noDir) e s1 where "eng (SimpleGit p) (engineState w) = (Inl e, s1)" "r = Inl e"
      "w' = extend w s1 [(SimpleGit p, Inl e)] []"
  | (failed) x s1 e s2 where "eng (SimpleGit p) (engineState w) = (Inr x, s1)"
      "eng (RawShowSuperproject p) s1 = (Inl e, s2)" "r = Inr None"
      "w' = extend w s2 [(SimpleGit p, Inr x), (RawShowSuperproject p, Inl e)] []"
  | (answered) x s1 out s2 where "eng (SimpleGit p) (engineState w) = (Inr x, s1)"
      "eng (RawShowSuperproject p) s1 = (Inr out, s2)"
      "r = Inr (if trim out \<noteq> [] then Some (trim out) else None)"
      "w' = extend w s2 [(SimpleGit p, Inr x), (RawShowSuperproject p, Inr out)] []"
  using assms unfolding isSubmodule_def
  by (auto elim!: stepE split: if_splits)

lemma updateParentE:
  assumes "updateParent eng root m p w = (r, w')"
  obtains (noDir) e s1 where "eng (SimpleGit p) (engineState w) = (Inl e, s1)" "r = Inl e"
      "w' = extend w s1 [(SimpleGit p, Inl e)] [DetectedSubmodule p]"
  | (addFailed) x s1 e s2 where "eng (SimpleGit p) (engineState w) = (Inr x, s1)"
      "eng (Add p (''./'' @ basename root)) s1 = (Inl e, s2)" "r = Inl e"
      "w' = extend w s2 [(SimpleGit p, Inr x), (Add p (''./'' @ basename root), Inl e)]
             [DetectedSubmodule p]"
  | (commitFailed) x s1 y s2 e s3 where "eng (SimpleGit p) (engineState w) = (Inr x, s1)"
      "eng (Add p (''./'' @ basename root)) s1 = (Inr y, s2)"
      "eng (Commit p (submoduleMessage (basename root) m)) s2 = (Inl e, s3)" "r = Inl e"
      "w' = extend w s3 [(SimpleGit p, Inr x), (Add p (''./'' @ basename root), Inr y),
               (Commit p (submoduleMessage (basename root) m), Inl e)]
             [DetectedSubmodule p, StagedSubmodule (basename root)]"
  | (committed) x s1 y s2 z s3 where "eng (SimpleGit p) (engineState w) = (Inr x, s1)"
      "eng (Add p (''./'' @ basename root)) s1 = (Inr y, s2)"
      "eng (Commit p (submoduleMessage (basename root) m)) s2 = (Inr z, s3)" "r = Inr ()"
      "w' = extend w s3 [(SimpleGit p, Inr x), (Add p (''./'' @ basename root), Inr y),
               (Commit p (submoduleMessage (basename root) m), Inr z)]
             [DetectedSubmodule p, StagedSubmodule (basename root),
              CommittedSubmoduleUpdate (basename root) p]"
  using assms unfolding updateParent_def Let_def
  by (auto elim!: stepE)

lemma helperUpdateParentE:
  assumes "helperUpdateParent eng root m p w = (r, w')"
  obtains (noDir) e s1 where "eng (SimpleGit p) (engineState w) = (Inl e, s1)" "r = Inl e"
      "w' = extend w s1 [(SimpleGit p, Inl e)] [DetectedSubmodule p]"
  | (addFailed) x s1 e s2 where "eng (SimpleGit p) (engineState w) = (Inr x, s1)"
      "eng (Add p p) s1 = (Inl e, s2)" "r = Inl e"
      "w' = extend w s2 [(SimpleGit p, Inr x), (Add p p, Inl e)] [DetectedSubmodule p]"
  | (commitFailed) x s1 y s2 e s3 where "eng (SimpleGit p) (engineState w) = (Inr x, s1)"
      "eng (Add p p) s1 = (Inr y, s2)"
      "eng (Commit p (helperSubmoduleMessage (basename root) m)) s2 = (Inl e, s3)" "r = Inl e"
      "w' = extend w s3 [(SimpleGit p, Inr x), (Add p p, Inr y),
               (Commit p (helperSubmoduleMessage (basename root) m), Inl e)]
             [DetectedSubmodule p, StagedSubmodule (basename root)]"
  | (committed) x s1 y s2 z s3 where "eng (SimpleGit p) (engineState w) = (Inr x, s1)"
      "eng (Add p p) s1 = (Inr y, s2)"
      "eng (Commit p (helperSubmoduleMessage (basename root) m)) s2 = (Inr z, s3)" "r = Inr ()"
      "w' = extend w s3 [(SimpleGit p, Inr x), (Add p p, Inr y),
               (Commit p (helperSubmoduleMessage (basename root) m), Inr z)]
             [DetectedSubmodule p, StagedSubmodule (basename root),
              CommittedSubmoduleUpdate (basename root) p]"
  using assms unfolding helperUpdateParent_def Let_def
  by (auto elim!: stepE)

lemmas runE = andThenE tryCatchE gitE consoleLogE ensureBranchE isSubmoduleE updateParentE
  helperUpdateParentE

text \<open>
  The same rules with the engine's equations left out, for statements about the calls
  and the console alone.
\<close>

lemma gitE_light:
  assumes "git eng c w = (r, w')"
  obtains s' where "w' = extend w s' [(c, r)] []"
  using assms by (auto simp: git_def extend_def split: prod.splits)

lemma ensureBranchE_light:
  assumes "ensureBranch eng root b cb w = (r, w')"
  obtains (named) "trim cb \<noteq> ''HEAD''" "r = Inr ()" "w' = w"
  | (checkedOut) x s1 where "trim cb = ''HEAD''" "r = Inr ()"
      "w' = extend w s1 [(Checkout root b, Inr x)] [CheckedOutBranch b root]"
  | (created) e x s2 where "trim cb = ''HEAD''" "r = Inr ()"
      "w' = extend w s2 [(Checkout root b, Inl e), (CheckoutLocalBranch root b, Inr x)]
             [CreatedBranch b root]"
  | (refused) e e' s2 where "trim cb = ''HEAD''" "r = Inl e'"
      "w' = extend w s2 [(Checkout root b, Inl e), (CheckoutLocalBranch root b, Inl e')] []"
  by (rule ensureBranchE [OF assms]) (blast intro: that)+

lemma isSubmoduleE_light:
  assumes "isSubmodule eng p w = (r, w')"
  obtains (noDir) e s1 where "r = Inl e"
      "w' = extend w s1 [(SimpleGit p, Inl e)] []"
  | (failed) x e s2 where "r = Inr None"
      "w' = extend w s2 [(SimpleGit p, Inr x), (RawShowSuperproject p, Inl e)] []"
  | (answered) x out s2 where
      "r = Inr (if trim out \<noteq> [] then Some (trim out) else None)"
      "w' = extend w s2 [(SimpleGit p, Inr x), (RawShowSuperproject p, Inr out)] []"
  by (rule isSubmoduleE [OF assms]) (blast intro: that)+

lemma updateParentE_light:
  assumes "updateParent eng root m p w = (r, w')"
  obtains (noDir) e s1 where "r = Inl e"
      "w' = extend w s1 [(SimpleGit p, Inl e)] [DetectedSubmodule p]"
  | (addFailed) x e s2 where "r = Inl e"
      "w' = extend w s2 [(SimpleGit p, Inr x), (Add p (''./'' @ basename root), Inl e)]
             [DetectedSubmodule p]"
  | (commitFailed) x y e s3 where "r = Inl e"
      "w' = extend w s3 [(SimpleGit p, Inr x), (Add p (''./'' @ basename root), Inr y),
               (Commit p (submoduleMessage (basename root) m), Inl e)]
             [DetectedSubmodule p, StagedSubmodule (basename root)]"
  | (committed) x y z s3 where "r = Inr ()"
      "w' = extend w s3 [(SimpleGit p, Inr x), (Add p (''./'' @ basename root), Inr y),
               (Commit p (submoduleMessage (basename root) m), Inr z)]
             [DetectedSubmodule p, StagedSubmodule (basename root),
              CommittedSubmoduleUpdate (basename root) p]"
  by (rule updateParentE [OF assms]) (blast intro: that)+

lemma helperUpdateParentE_light:
  assumes "helperUpdateParent eng root m p w = (r, w')"
  obtains (noDir) e s1 where "r = Inl e"
      "w' = extend w s1 [(SimpleGit p, Inl e)] [DetectedSubmodule p]"
  | (addFailed) x e s2 where "r = Inl e"
      "w' = extend w s2 [(SimpleGit p, Inr x), (Add p p, Inl e)] [DetectedSubmodule p]"
  | (commitFailed) x y e s3 where "r = Inl e"
      "w' = extend w s3 [(SimpleGit p, Inr x), (Add p p, Inr y),
               (Commit p (helperSubmoduleMessage (basename root) m), Inl e)]
             [DetectedSubmodule p, StagedSubmodule (basename root)]"
  | (committed) x y z s3 where "r = Inr ()"
      "w' = extend w s3 [(SimpleGit p, Inr x), (Add p p, Inr y),
               (Commit p (helperSubmoduleMessage (basename root) m), Inr z)]
             [DetectedSubmodule p, StagedSubmodule (basename root),
              CommittedSubmoduleUpdate (basename root) p]"
  by (rule helperUpdateParentE [OF assms]) (blast intro: that)+

lemmas lightE = andThenE tryCatchE gitE_light consoleLogE ensureBranchE_light
  isSubmoduleE_light updateParentE_light helperUpdateParentE_light

section \<open>Facts about every run\<close>

text \<open>
  The calls and lines of a run of \<open>commitChanges\<close>, for every engine, every state and
  every answer the engine may give.
\<close>

lemma one_level_aux:
  assumes "commitChanges eng relative currentPath commitMessage branchName (start s) = (r, w')"
  shows "length (filter isShowSuperproject (map fst (calls w'))) \<le> 1 \<and>
         length (filter isCommit (map fst (calls w'))) \<le> 2"
  using assms unfolding commitChanges_def commitChanges_try_def Let_def
  by (auto elim!: lightE simp: isCommit_def isShowSuperproject_def split: if_splits option.splits)

lemma one_level_aux2:
  assumes "commitChanges eng relative currentPath commitMessage branchName (start s) = (r, w')"
    and "(RawShowSuperproject d, q) \<in> set (calls w')"
  shows "(RevParseShowToplevel currentPath, Inr d) \<in> set (calls w')"
  using assms unfolding commitChanges_def commitChanges_try_def Let_def
  by (auto elim!: lightE split: if_splits option.splits)


lemma commit_places_aux:
  assumes "commitChanges eng relative currentPath commitMessage branchName (start s) = (r, w')"
    and "(Commit d msg, q) \<in> set (calls w')"
  shows "(RevParseShowToplevel currentPath, Inr d) \<in> set (calls w') \<or>
         (\<exists>root out. (RevParseShowToplevel currentPath, Inr root) \<in> set (calls w') \<and>
            (RawShowSuperproject root, Inr out) \<in> set (calls w') \<and> d = trim out)"
  using assms unfolding commitChanges_def commitChanges_try_def Let_def
  by (auto elim!: lightE simp: ex_disj_distrib split: if_splits option.splits)



lemma stage_calls_aux:
  assumes "commitChanges eng relative currentPath commitMessage branchName (start s) = (r, w')"
    and "(Add d spec, q) \<in> set (calls w')"
  shows "\<exists>root. (RevParseShowToplevel currentPath, Inr root) \<in> set (calls w') \<and>
           (d = root \<and> spec = relativeOrDot relative root currentPath @ ''/.'' \<or>
            (\<exists>out. (RawShowSuperproject root, Inr out) \<in> set (calls w') \<and> d = trim out \<and>
               spec = ''./'' @ basename root))"
  using assms unfolding commitChanges_def commitChanges_try_def Let_def
  by (auto elim!: lightE simp: ex_disj_distrib split: if_splits option.splits)


text \<open>
  The record of a run is faithful: asking the engine the recorded calls in order, from
  the state the run started in, gives the recorded answers and ends in the state the
  run ended in.
\<close>

lemma run_replay:
  assumes "commitChanges eng relative currentPath commitMessage branchName (start s) = (r, w')"
  shows "replay eng (calls w') s = Some (engineState w')"
  using assms unfolding commitChanges_def commitChanges_try_def Let_def
  by (auto elim!: runE split: if_splits option.splits)

lemma frame_replay:
  assumes "indexDiscipline eng stagedIn committedIn selected"
  shows "replay eng tr s = Some s' \<Longrightarrow> f \<notin> stagedIn s \<Longrightarrow> f \<notin> committedIn s \<Longrightarrow>
         (\<forall>d spec q. (Add d spec, q) \<in> set tr \<longrightarrow> f \<notin> selected d spec) \<Longrightarrow>
         f \<notin> stagedIn s' \<and> f \<notin> committedIn s'"
proof (induction tr arbitrary: s)
  case Nil
  then show ?case by simp
next
  case (Cons x tr)
  obtain c q where x: "x = (c, q)" by (cases x)
  obtain q' s1 where e: "eng c s = (q', s1)" by (cases "eng c s")
  from Cons.prems(1) x e have q: "q' = q" and rest: "replay eng tr s1 = Some s'"
    by (auto split: if_splits)
  from assms have
    "committedIn (snd (eng c s)) \<subseteq> committedIn s \<union> stagedIn s"
    "stagedIn (snd (eng c s)) \<subseteq> stagedIn s \<union> (case c of Add d spec \<Rightarrow> selected d spec | _ \<Rightarrow> {})"
    unfolding indexDiscipline_def by blast+
  with e have c1: "committedIn s1 \<subseteq> committedIn s \<union> stagedIn s"
    and c2: "stagedIn s1 \<subseteq> stagedIn s \<union> (case c of Add d spec \<Rightarrow> selected d spec | _ \<Rightarrow> {})"
    by simp_all
  have nsel: "f \<notin> (case c of Add d spec \<Rightarrow> selected d spec | _ \<Rightarrow> {})"
    using Cons.prems(4) x by (cases c) auto
  from c1 Cons.prems(2,3) have a: "f \<notin> committedIn s1" by blast
  from c2 Cons.prems(2) nsel have b: "f \<notin> stagedIn s1" by blast
  have "\<forall>d spec q. (Add d spec, q) \<in> set tr \<longrightarrow> f \<notin> selected d spec"
    using Cons.prems(4) by auto
  from Cons.IH [OF rest b a this] show ?case .
qed






section \<open>The sample engine: its disciplines and the runs evaluated on it\<close>

lemma look_put [simp]: "look (put d r s) d' = (if d' = d then r else look s d')"
  by (induction s) auto

lemma sample_indexDiscipline:
  "indexDiscipline sampleGit sampleStaged sampleCommitted sampleSelected"
  unfolding indexDiscipline_def
proof (intro allI)
  fix c :: git_call and s :: sample
  show "sampleCommitted (snd (sampleGit c s)) \<subseteq> sampleCommitted s \<union> sampleStaged s \<and>
        sampleStaged (snd (sampleGit c s)) \<subseteq>
          sampleStaged s \<union> (case c of Add d spec \<Rightarrow> sampleSelected d spec | _ \<Rightarrow> {})"
    by (cases c)
      (auto simp: sampleGit_def sampleCommitted_def sampleStaged_def sampleSelected_def Let_def
         split: list.splits if_splits)
qed


text \<open>
  The runs on the samples, evaluated in full: the value returned, the final state of the
  engine, the calls with their answers and the lines printed.
\<close>

lemma run_sample1:
  "commitChanges sampleGit sampleRelative ''/notes/ws/A'' ''msg'' None (start sample1)
     = (Inr (),
      \<lparr>engineState =
        [(''/notes/ws'',
          \<lparr>superproject = ''/notes'', headRef = ''main'', branches = [''main''],
            unstaged = [''B/b.md''], staged = [], committed = [''A/a.md'']\<rparr>),
         (''/notes'',
          \<lparr>superproject = [], headRef = ''main'', branches = [''main''],
            unstaged = [], staged = [], committed = [''ws'']\<rparr>)],
      calls =
        [(SimpleGit ''/notes/ws/A'', Inr []),
         (RevParseShowToplevel ''/notes/ws/A'', Inr ''/notes/ws''),
         (SimpleGit ''/notes/ws'', Inr []),
         (RevParseAbbrevRefHead ''/notes/ws'', Inr ''HEAD''),
         (Checkout ''/notes/ws'' ''main'', Inr []),
         (Add ''/notes/ws'' ''A/.'', Inr []),
         (Commit ''/notes/ws'' ''msg'', Inr []),
         (SimpleGit ''/notes/ws'', Inr []),
         (RawShowSuperproject ''/notes/ws'', Inr ''/notes\<newline>''),
         (SimpleGit ''/notes'', Inr []),
         (Add ''/notes'' ''./ws'', Inr []),
         (Commit ''/notes'' (submoduleMessage ''ws'' ''msg''), Inr [])],
      console =
        [CheckedOutBranch ''main'' ''/notes/ws'', StagedCurrentDirectory, CommittedChanges ''msg'' ''/notes/ws'',
         DetectedSubmodule ''/notes'', StagedSubmodule ''ws'',
         CommittedSubmoduleUpdate ''ws'' ''/notes'']\<rparr>)"
  by code_simp


lemma try_cleanSample:
  "commitChanges_try sampleGit sampleRelative ''/notes/ws'' ''msg'' (defaultBranch None)
     (start cleanSample)
     = (Inl ''nothing to commit'',
      \<lparr>engineState =
        [(''/notes/ws'',
          \<lparr>superproject = [], headRef = ''main'', branches = [''main''],
            unstaged = [], staged = [], committed = []\<rparr>)],
      calls =
        [(SimpleGit ''/notes/ws'', Inr []),
         (RevParseShowToplevel ''/notes/ws'', Inr ''/notes/ws''),
         (SimpleGit ''/notes/ws'', Inr []),
         (RevParseAbbrevRefHead ''/notes/ws'', Inr ''main''),
         (Add ''/notes/ws'' ''./.'', Inr []),
         (Commit ''/notes/ws'' ''msg'', Inl ''nothing to commit'')],
      console =
        [StagedCurrentDirectory]\<rparr>)"
  by code_simp



lemma run_sample3:
  "commitChanges sampleGit sampleRelative ''/notes/ws/A'' ''msg'' None (start sample3)
     = (Inr (),
      \<lparr>engineState =
        [(''/notes/ws'',
          \<lparr>superproject = ''/notes'', headRef = ''main'', branches = [''main''],
            unstaged = [], staged = [], committed = [''B/b.md'', ''A/a.md'']\<rparr>),
         (''/notes'',
          \<lparr>superproject = [], headRef = ''main'', branches = [''main''],
            unstaged = [], staged = [], committed = [''ws'']\<rparr>)],
      calls =
        [(SimpleGit ''/notes/ws/A'', Inr []),
         (RevParseShowToplevel ''/notes/ws/A'', Inr ''/notes/ws''),
         (SimpleGit ''/notes/ws'', Inr []),
         (RevParseAbbrevRefHead ''/notes/ws'', Inr ''main''),
         (Add ''/notes/ws'' ''A/.'', Inr []),
         (Commit ''/notes/ws'' ''msg'', Inr []),
         (SimpleGit ''/notes/ws'', Inr []),
         (RawShowSuperproject ''/notes/ws'', Inr ''/notes\<newline>''),
         (SimpleGit ''/notes'', Inr []),
         (Add ''/notes'' ''./ws'', Inr []),
         (Commit ''/notes'' (submoduleMessage ''ws'' ''msg''), Inr [])],
      console =
        [StagedCurrentDirectory, CommittedChanges ''msg'' ''/notes/ws'',
         DetectedSubmodule ''/notes'', StagedSubmodule ''ws'',
         CommittedSubmoduleUpdate ''ws'' ''/notes'']\<rparr>)"
  by code_simp

lemma commitHelper_run_sample4:
  "commitHelper_commitChanges sampleGit ''/notes/ws'' ''msg'' (start sample4)
     = (Inr (),
      \<lparr>engineState =
        [(''/notes/ws'',
          \<lparr>superproject = ''/notes'', headRef = ''main'', branches = [''main''],
            unstaged = [], staged = [], committed = [''a.md'']\<rparr>),
         (''/notes'',
          \<lparr>superproject = [], headRef = ''main'', branches = [''main''],
            unstaged = [], staged = [], committed = [''ws'', ''todo.md'']\<rparr>)],
      calls =
        [(SimpleGit ''/notes/ws'', Inr []),
         (Add ''/notes/ws'' ''.'', Inr []),
         (Commit ''/notes/ws'' ''msg'', Inr []),
         (SimpleGit ''/notes/ws'', Inr []),
         (RawShowSuperproject ''/notes/ws'', Inr ''/notes\<newline>''),
         (SimpleGit ''/notes'', Inr []),
         (Add ''/notes'' ''/notes'', Inr []),
         (Commit ''/notes'' (helperSubmoduleMessage ''ws'' ''msg''), Inr [])],
      console =
        [StagedAllChanges, CommittedChanges ''msg'' ''/notes/ws'',
         DetectedSubmodule ''/notes'', StagedSubmodule ''ws'',
         CommittedSubmoduleUpdate ''ws'' ''/notes'']\<rparr>)"
  by code_simp

lemma run_sample4:
  "commitChanges sampleGit sampleRelative ''/notes/ws'' ''msg'' None (start sample4)
     = (Inr (),
      \<lparr>engineState =
        [(''/notes/ws'',
          \<lparr>superproject = ''/notes'', headRef = ''main'', branches = [''main''],
            unstaged = [], staged = [], committed = [''a.md'']\<rparr>),
         (''/notes'',
          \<lparr>superproject = [], headRef = ''main'', branches = [''main''],
            unstaged = [''todo.md''], staged = [], committed = [''ws'']\<rparr>)],
      calls =
        [(SimpleGit ''/notes/ws'', Inr []),
         (RevParseShowToplevel ''/notes/ws'', Inr ''/notes/ws''),
         (SimpleGit ''/notes/ws'', Inr []),
         (RevParseAbbrevRefHead ''/notes/ws'', Inr ''main''),
         (Add ''/notes/ws'' ''./.'', Inr []),
         (Commit ''/notes/ws'' ''msg'', Inr []),
         (SimpleGit ''/notes/ws'', Inr []),
         (RawShowSuperproject ''/notes/ws'', Inr ''/notes\<newline>''),
         (SimpleGit ''/notes'', Inr []),
         (Add ''/notes'' ''./ws'', Inr []),
         (Commit ''/notes'' (submoduleMessage ''ws'' ''msg''), Inr [])],
      console =
        [StagedCurrentDirectory, CommittedChanges ''msg'' ''/notes/ws'',
         DetectedSubmodule ''/notes'', StagedSubmodule ''ws'',
         CommittedSubmoduleUpdate ''ws'' ''/notes'']\<rparr>)"
  by code_simp



section \<open>The claims about the Submodule Detector and the Change Propagator\<close>



text \<open>
  C10. Both versions of \<open>commitChanges\<close> return normally whatever the engine answers:
  the result is never an error, and when the body of the \<open>try\<close> fails with message
  \<open>e\<close> the only trace of it is the line \<open>Error committing changes: e\<close> added to the
  console. The value returned is the same in both cases.
\<close>

theorem C10_never_rejects:
  "fst (commitChanges eng relative currentPath commitMessage branchName w) = Inr () \<and>
   fst (commitHelper_commitChanges eng repoPath commitMessage w) = Inr () \<and>
   (\<forall>e w1. commitChanges_try eng relative currentPath commitMessage (defaultBranch branchName) w
               = (Inl e, w1) \<longrightarrow>
      snd (commitChanges eng relative currentPath commitMessage branchName w)
        = w1\<lparr>console := console w1 @ [ErrorCommittingChanges e]\<rparr>) \<and>
   (\<forall>e w1. commitHelper_try eng repoPath commitMessage w = (Inl e, w1) \<longrightarrow>
      snd (commitHelper_commitChanges eng repoPath commitMessage w)
        = w1\<lparr>console := console w1 @ [ErrorCommittingChanges e]\<rparr>)"
  by (auto simp: commitChanges_def commitHelper_commitChanges_def tryCatch_def consoleLog_def
      split: prod.splits sum.splits)


theorem C10_never_rejects_witness:
  "fst (commitChanges_try sampleGit sampleRelative ''/notes/ws'' ''msg'' (defaultBranch None)
          (start cleanSample)) = Inl ''nothing to commit'' \<and>
   fst (commitChanges sampleGit sampleRelative ''/notes/ws'' ''msg'' None (start cleanSample))
     = Inr () \<and>
   console (snd (commitChanges sampleGit sampleRelative ''/notes/ws'' ''msg'' None
      (start cleanSample)))
     = [StagedCurrentDirectory, ErrorCommittingChanges ''nothing to commit'']"
  using C10_never_rejects [of sampleGit sampleRelative "''/notes/ws''" "''msg''" None
      "start cleanSample"]
  by (simp add: try_cleanSample)

text \<open>
  C6. A call of \<open>commitChanges\<close> asks at most once for a superproject, and asks it of
  the repository root found for the target path, never of the superproject itself; it
  makes at most two commit calls, each either in that repository root or in the
  superproject the query named.
\<close>

theorem C6_one_level:
  fixes eng :: "'s engine" and relative currentPath commitMessage branchName s
  defines "w' \<equiv> snd (commitChanges eng relative currentPath commitMessage branchName (start s))"
  shows "length (filter isShowSuperproject (map fst (calls w'))) \<le> 1 \<and>
         length (filter isCommit (map fst (calls w'))) \<le> 2 \<and>
         (\<forall>d q. (RawShowSuperproject d, q) \<in> set (calls w') \<longrightarrow>
            (RevParseShowToplevel currentPath, Inr d) \<in> set (calls w')) \<and>
         (\<forall>d msg q. (Commit d msg, q) \<in> set (calls w') \<longrightarrow>
            (RevParseShowToplevel currentPath, Inr d) \<in> set (calls w') \<or>
            (\<exists>root out. (RevParseShowToplevel currentPath, Inr root) \<in> set (calls w') \<and>
               (RawShowSuperproject root, Inr out) \<in> set (calls w') \<and> d = trim out))"
proof -
  have run: "commitChanges eng relative currentPath commitMessage branchName (start s)
      = (fst (commitChanges eng relative currentPath commitMessage branchName (start s)), w')"
    by (simp add: w'_def)
  from one_level_aux [OF run] one_level_aux2 [OF run] commit_places_aux [OF run]
  show ?thesis by blast
qed

theorem C6_one_level_witness:
  "length (filter isShowSuperproject (map fst (calls (snd (commitChanges sampleGit
      sampleRelative ''/notes/ws/A'' ''msg'' None (start sample1)))))) = 1 \<and>
   length (filter isCommit (map fst (calls (snd (commitChanges sampleGit
      sampleRelative ''/notes/ws/A'' ''msg'' None (start sample1)))))) = 2 \<and>
   (RawShowSuperproject ''/notes/ws'', Inr ''/notes\<newline>'') \<in> set (calls (snd (commitChanges
      sampleGit sampleRelative ''/notes/ws/A'' ''msg'' None (start sample1)))) \<and>
   (RevParseShowToplevel ''/notes/ws/A'', Inr ''/notes/ws'') \<in> set (calls (snd (commitChanges
      sampleGit sampleRelative ''/notes/ws/A'' ''msg'' None (start sample1))))"
  using C6_one_level [of sampleGit sampleRelative "''/notes/ws/A''" "''msg''" None sample1]
  by (simp add: run_sample1 isShowSuperproject_def isCommit_def)







text \<open>
  C2. The version in \<open>src/functions/commitHelper.js\<close> passes the superproject's own
  path to the stage call it makes on the superproject, which covers the whole working
  tree there, not the submodule's entry alone. From \<open>sample4\<close>, where the superproject
  has a change of its own, that change is committed together with the entry. The version
  with branch handling stages \<open>./ws\<close> and leaves the other change alone
  (\<open>stage_calls_aux\<close> gives its stage calls for every engine).
\<close>

theorem C2_commitHelper_stages_whole_superproject:
  "calls (snd (commitHelper_commitChanges sampleGit ''/notes/ws'' ''msg'' (start sample4)))
     = [(SimpleGit ''/notes/ws'', Inr []),
        (Add ''/notes/ws'' ''.'', Inr []),
        (Commit ''/notes/ws'' ''msg'', Inr []),
        (SimpleGit ''/notes/ws'', Inr []),
        (RawShowSuperproject ''/notes/ws'', Inr ''/notes\<newline>''),
        (SimpleGit ''/notes'', Inr []),
        (Add ''/notes'' ''/notes'', Inr []),
        (Commit ''/notes'' (helperSubmoduleMessage ''ws'' ''msg''), Inr [])] \<and>
   committed (look (engineState (snd (commitHelper_commitChanges sampleGit ''/notes/ws'' ''msg''
       (start sample4)))) ''/notes'') = [''ws'', ''todo.md''] \<and>
   committed (look (engineState (snd (commitChanges sampleGit sampleRelative ''/notes/ws'' ''msg''
       None (start sample4)))) ''/notes'') = [''ws''] \<and>
   unstaged (look (engineState (snd (commitChanges sampleGit sampleRelative ''/notes/ws'' ''msg''
       None (start sample4)))) ''/notes'') = [''todo.md'']"
  by (simp add: commitHelper_run_sample4 run_sample4)

text \<open>
  C4 (as amended). The only stage calls of a run are the one on the repository root, for
  the target's subtree relative to the root (\<open>.\<close> when the target is the root), and
  the one on the superproject, for the submodule's entry; the commit call takes the
  whole index. So, for an engine that keeps the index discipline, a change \<open>f\<close> that
  neither of these two pathspecs selects, and that was not already in the index when the
  call was made, is neither staged nor committed by the call.
\<close>

theorem C4_scoped_staging:
  fixes eng :: "'s engine" and relative currentPath commitMessage branchName s
  defines "w' \<equiv> snd (commitChanges eng relative currentPath commitMessage branchName (start s))"
  assumes "indexDiscipline eng stagedIn committedIn selected"
    and "f \<notin> stagedIn s" and "f \<notin> committedIn s"
    and "\<forall>root. (RevParseShowToplevel currentPath, Inr root) \<in> set (calls w') \<longrightarrow>
           f \<notin> selected root (relativeOrDot relative root currentPath @ ''/.'') \<and>
           (\<forall>out. (RawShowSuperproject root, Inr out) \<in> set (calls w') \<longrightarrow>
              f \<notin> selected (trim out) (''./'' @ basename root))"
  shows "(\<forall>d spec q. (Add d spec, q) \<in> set (calls w') \<longrightarrow>
            (\<exists>root. (RevParseShowToplevel currentPath, Inr root) \<in> set (calls w') \<and>
               (d = root \<and> spec = relativeOrDot relative root currentPath @ ''/.'' \<or>
                (\<exists>out. (RawShowSuperproject root, Inr out) \<in> set (calls w') \<and> d = trim out \<and>
                   spec = ''./'' @ basename root)))) \<and>
         f \<notin> stagedIn (engineState w') \<and> f \<notin> committedIn (engineState w')"
proof -
  have run: "commitChanges eng relative currentPath commitMessage branchName (start s)
      = (fst (commitChanges eng relative currentPath commitMessage branchName (start s)), w')"
    by (simp add: w'_def)
  note stage = stage_calls_aux [OF run]
  have unselected: "\<forall>d spec q. (Add d spec, q) \<in> set (calls w') \<longrightarrow> f \<notin> selected d spec"
  proof (intro allI impI)
    fix d spec q
    assume "(Add d spec, q) \<in> set (calls w')"
    from stage [OF this] assms(5) show "f \<notin> selected d spec" by blast
  qed
  from frame_replay [OF assms(2) run_replay [OF run] assms(3,4) unselected] stage
  show ?thesis by blast
qed

theorem C4_scoped_staging_witness:
  "indexDiscipline sampleGit sampleStaged sampleCommitted sampleSelected \<and>
   (''/notes/ws'', ''B/b.md'') \<notin> sampleStaged sample1 \<and>
   (''/notes/ws'', ''B/b.md'') \<notin> sampleCommitted sample1 \<and>
   (''/notes/ws'', ''B/b.md'') \<notin> sampleCommitted (engineState (snd (commitChanges sampleGit
      sampleRelative ''/notes/ws/A'' ''msg'' None (start sample1)))) \<and>
   (''/notes/ws'', ''A/a.md'') \<in> sampleCommitted (engineState (snd (commitChanges sampleGit
      sampleRelative ''/notes/ws/A'' ''msg'' None (start sample1))))"
proof -
  let ?w = "snd (commitChanges sampleGit sampleRelative ''/notes/ws/A'' ''msg'' None
      (start sample1))"
  have a: "(''/notes/ws'', ''B/b.md'') \<notin> sampleStaged sample1"
    by (simp add: sampleStaged_def sample1_def emptyRepo_def)
  have b: "(''/notes/ws'', ''B/b.md'') \<notin> sampleCommitted sample1"
    by (simp add: sampleCommitted_def sample1_def emptyRepo_def)
  have rel: "relativeOrDot sampleRelative ''/notes/ws'' ''/notes/ws/A'' = ''A''"
    by code_simp
  have cov: "\<not> covers ''/notes/ws'' ''A/.'' ''B/b.md''"
    by code_simp
  have tr: "trim ''/notes\<newline>'' = ''/notes''"
    by code_simp
  have h: "\<forall>root. (RevParseShowToplevel ''/notes/ws/A'', Inr root) \<in> set (calls ?w) \<longrightarrow>
      (''/notes/ws'', ''B/b.md'') \<notin> sampleSelected root
         (relativeOrDot sampleRelative root ''/notes/ws/A'' @ ''/.'') \<and>
      (\<forall>out. (RawShowSuperproject root, Inr out) \<in> set (calls ?w) \<longrightarrow>
         (''/notes/ws'', ''B/b.md'') \<notin> sampleSelected (trim out) (''./'' @ basename root))"
    unfolding run_sample1 using rel cov tr by (auto simp: sampleSelected_def)
  have c: "committed (look (engineState ?w) ''/notes/ws'') = [''A/a.md'']"
    by (simp add: run_sample1)
  from C4_scoped_staging [OF sample_indexDiscipline a b h] c sample_indexDiscipline a b
  show ?thesis by (simp add: sampleCommitted_def)
qed

text \<open>
  C4 as stated fails for a change under \<open>B\<close> that is already in the index. In
  \<open>sample3\<close> the change \<open>B/b.md\<close> is staged and not committed; the call for \<open>A\<close>
  stages \<open>A/.\<close> only, and its commit records \<open>B/b.md\<close> together with \<open>A/a.md\<close>.
\<close>

theorem C4_staged_elsewhere_counterexample:
  "unstaged (look sample3 ''/notes/ws'') = [''A/a.md''] \<and>
   staged (look sample3 ''/notes/ws'') = [''B/b.md''] \<and>
   committed (look sample3 ''/notes/ws'') = [] \<and>
   map fst (filter accepted (calls (snd (commitChanges sampleGit sampleRelative
       ''/notes/ws/A'' ''msg'' None (start sample3)))))
     = [SimpleGit ''/notes/ws/A'', RevParseShowToplevel ''/notes/ws/A'',
        SimpleGit ''/notes/ws'', RevParseAbbrevRefHead ''/notes/ws'',
        Add ''/notes/ws'' ''A/.'', Commit ''/notes/ws'' ''msg'',
        SimpleGit ''/notes/ws'', RawShowSuperproject ''/notes/ws'',
        SimpleGit ''/notes'', Add ''/notes'' ''./ws'',
        Commit ''/notes'' (submoduleMessage ''ws'' ''msg'')] \<and>
   committed (look (engineState (snd (commitChanges sampleGit sampleRelative ''/notes/ws/A''
       ''msg'' None (start sample3)))) ''/notes/ws'') = [''B/b.md'', ''A/a.md'']"
  unfolding run_sample3 by (simp add: sample3_def emptyRepo_def accepted_def)




end
